theory Spec2Isabelle
  imports Complex_Main "HOL-Library.Multiset"
begin

section \<open>The replay generators of \<open>scripts/pyannote-face.py\<close>\<close>

text \<open>
  The script re-aligns precomputed annotations (face boxes, landmark points) with the
  frames of a video. Each annotation file is served by a Python generator: the driver
  primes it with \<open>send(None)\<close> and then sends one frame timestamp per frame; the
  generator answers every timestamp with a pair (time, records).

  Python floats are modelled as \<open>real\<close>: equality and order of finite floats are those
  of the reals they denote, which is all the replay loop uses. The rounding of float
  products and NaN cells are outside the model. The tables that pandas'
  \<open>read_table\<close> returns are the inputs of the model.
\<close>

subsection \<open>Face boxes: \<open>getFaceGenerator\<close> (lines 95--149)\<close>

text \<open>One row of the tracking table, in the order of \<open>names\<close> (line 99):
  t, track, left, top, right, bottom, status.\<close>

type_synonym tracking_row = "real \<times> int \<times> real \<times> real \<times> real \<times> real \<times> string"

text \<open>\<open>dlib.rectangle\<close> holds integer pixels, \<open>dlib.drectangle\<close> holds doubles.\<close>

datatype rectangle_t =
    rectangle int int int int
  | drectangle real real real real

type_synonym face_entry = "int \<times> rectangle_t \<times> string"

type_synonym face_reply = "real \<times> face_entry list"

text \<open>Python's \<open>int(x)\<close> on a float truncates towards zero.\<close>

definition py_int :: "real \<Rightarrow> int" where
  "py_int x = (if 0 \<le> x then \<lfloor>x\<rfloor> else \<lceil>x\<rceil>)"

text \<open>\<open>tracking.sort_values('t')\<close> (line 104): the rows in ascending order of t. Rows
  of equal t are kept here in the order of the file; pandas' default sort may order
  them otherwise, and the theorems below speak of the sorted table itself.\<close>

definition row_t :: "tracking_row \<Rightarrow> real" where
  "row_t row = fst row"

definition sort_values :: "tracking_row list \<Rightarrow> tracking_row list" where
  "sort_values tracking = sort_key row_t tracking"

text \<open>Lines 116--121 and the tuple of lines 125 and 144: the four coordinates are
  scaled and truncated by \<open>int\<close> whatever the flag is; the flag only selects the
  constructor (line 109).\<close>

definition face_of_row :: "int \<Rightarrow> int \<Rightarrow> bool \<Rightarrow> tracking_row \<Rightarrow> real \<times> face_entry" where
  "face_of_row frame_width frame_height double row =
     (case row of (T, identifier, left_n, top_n, right_n, bottom_n, status) \<Rightarrow>
        let left_px = py_int (left_n * of_int frame_width);
            right_px = py_int (right_n * of_int frame_width);
            top_px = py_int (top_n * of_int frame_height);
            bottom_px = py_int (bottom_n * of_int frame_height);
            face = (if double
                    then drectangle (of_int left_px) (of_int top_px)
                           (of_int right_px) (of_int bottom_px)
                    else rectangle left_px top_px right_px bottom_px)
        in (T, (identifier, face, status)))"

text \<open>
  The places where the generator is suspended, each with the local variables that are
  live there:
  \<^item> \<open>FaceStart\<close>: line 107, \<open>t = yield\<close>, after priming; the sorted table is loaded.
  \<^item> \<open>FaceWait\<close>: line 137, \<open>t = yield t, []\<close>; the rest of the row iterator, \<open>faces\<close>,
    \<open>currentT\<close>, and the row in hand (its T and its tuple).
  \<^item> \<open>FaceDelivered\<close>: line 141, \<open>t = yield currentT, faces\<close>; the rest of the row
    iterator and the row in hand, which lines 144--145 make the new buffer.
  \<^item> \<open>FaceEnd\<close>: line 149, \<open>t = yield t, []\<close>, after the \<open>for\<close> loop; \<open>faces\<close> and
    \<open>currentT\<close> as the loop left them.
\<close>

datatype face_pc =
    FaceStart "tracking_row list"
  | FaceWait "tracking_row list" "face_entry list" real "real \<times> face_entry"
  | FaceDelivered "tracking_row list" "real \<times> face_entry"
  | FaceEnd "face_entry list" "real option"

record face_generator =
  frame_width :: int
  frame_height :: int
  double :: bool
  pc :: face_pc

text \<open>Lines 133--146, entered with the query \<open>t\<close>: either wait (line 137) or return the
  buffered faces (line 141).\<close>

definition face_wait ::
  "real \<Rightarrow> tracking_row list \<Rightarrow> face_entry list \<Rightarrow> real \<Rightarrow> real \<times> face_entry
     \<Rightarrow> face_reply \<times> face_pc" where
  "face_wait t rows faces currentT hand =
     (if currentT > t then ((t, []), FaceWait rows faces currentT hand)
      else ((currentT, faces), FaceDelivered rows hand))"

text \<open>The \<open>for\<close> loop of line 114, run with the query \<open>t\<close> until the next \<open>yield\<close>.\<close>

fun face_loop ::
  "int \<Rightarrow> int \<Rightarrow> bool \<Rightarrow> real \<Rightarrow> tracking_row list \<Rightarrow> face_entry list \<Rightarrow> real option
     \<Rightarrow> face_reply \<times> face_pc" where
  "face_loop fw fh dbl t [] faces currentT = ((t, []), FaceEnd faces currentT)"
| "face_loop fw fh dbl t (row # rows) faces currentT =
     (case face_of_row fw fh dbl row of (T, entry) \<Rightarrow>
        (case currentT of
           None \<Rightarrow> face_loop fw fh dbl t rows (faces @ [entry]) (Some T)
         | Some c \<Rightarrow>
             if T = c then face_loop fw fh dbl t rows (faces @ [entry]) (Some T)
             else face_wait t rows faces c (T, entry)))"

text \<open>\<open>generator.send(t)\<close>: resume where the generator is suspended, run to the next
  \<open>yield\<close>, return what it yields and the suspended generator.\<close>

definition face_send :: "face_generator \<Rightarrow> real \<Rightarrow> face_reply \<times> face_generator" where
  "face_send g t =
     (let (reply, pc') =
        (case pc g of
           FaceStart rows \<Rightarrow> face_loop (frame_width g) (frame_height g) (double g) t rows [] None
         | FaceWait rows faces currentT hand \<Rightarrow> face_wait t rows faces currentT hand
         | FaceDelivered rows (T, entry) \<Rightarrow>
             face_loop (frame_width g) (frame_height g) (double g) t rows [entry] (Some T)
         | FaceEnd faces currentT \<Rightarrow> ((t, []), FaceEnd faces currentT))
      in (reply, g\<lparr>pc := pc'\<rparr>))"

text \<open>The generator after \<open>getFaceGenerator(...)\<close> and the priming \<open>send(None)\<close>
  (lines 249--252, 320--323): lines 99--104 have run.\<close>

definition getFaceGenerator :: "tracking_row list \<Rightarrow> int \<Rightarrow> int \<Rightarrow> bool \<Rightarrow> face_generator" where
  "getFaceGenerator tracking fw fh dbl =
     \<lparr>frame_width = fw, frame_height = fh, double = dbl, pc = FaceStart (sort_values tracking)\<rparr>"

text \<open>A driver loop: one \<open>send\<close> per frame timestamp, in order; the replies.\<close>

fun face_replies :: "face_generator \<Rightarrow> real list \<Rightarrow> face_reply list" where
  "face_replies g [] = []"
| "face_replies g (t # ts) = (case face_send g t of (reply, g') \<Rightarrow> reply # face_replies g' ts)"

subsection \<open>Landmarks: \<open>pairwise\<close> and \<open>getLandmarkGenerator\<close> (lines 152--210)\<close>

text \<open>What the script can raise on the paths modelled here. Python has one
  \<open>IndexError\<close>; the message tells a list index from an array index.\<close>

datatype py_error = KeyError | IndexError string

text \<open>\<open>pairwise\<close> (lines 152--155) is \<open>zip(a, a)\<close> over one iterator: it pairs
  consecutive items and stops when the second item of a pair is missing, so that a
  trailing odd item is dropped.\<close>

fun pairwise_iter :: "'a list \<Rightarrow> ('a \<times> 'a) list" where
  "pairwise_iter (s0 # s1 # rest) = (s0, s1) # pairwise_iter rest"
| "pairwise_iter [s0] = []"
| "pairwise_iter [] = []"

text \<open>\<open>np.round\<close> rounds to the nearest integer, halves to the even one, and returns a
  float.\<close>

definition np_round :: "real \<Rightarrow> real" where
  "np_round x =
     (let f = \<lfloor>x\<rfloor>; d = x - of_int f
      in of_int (if d < 1 / 2 then f else if 1 / 2 < d then f + 1
                 else if even f then f else f + 1))"

text \<open>One row of the landmark table: its cells, all numeric. A landmark set is an
  N x 2 array, here the list of its rows.\<close>

type_synonym shape_row = "real list"

type_synonym landmarks_t = "(real \<times> real) list"

type_synonym shape_entry = "int \<times> landmarks_t"

type_synonym shape_reply = "real \<times> shape_entry list"

text \<open>Line 166: \<open>n_points = (d - 2) / 2\<close> under \<open>from __future__ import division\<close>,
  a float. No later line reads it.\<close>

definition n_points_of :: "nat \<Rightarrow> real" where
  "n_points_of d = (of_nat d - 2) / 2"

text \<open>Lines 176--181 for one row. \<open>row[0]\<close> and \<open>row[1]\<close> raise \<open>KeyError\<close> when the
  column is missing. \<open>np.float32\<close> of an empty list of pairs is a one-dimensional
  array, on which the two-dimensional index \<open>landmarks[:, 0]\<close> raises \<open>IndexError\<close>.\<close>

definition shape_of_row :: "int \<Rightarrow> int \<Rightarrow> shape_row \<Rightarrow> py_error + (real \<times> shape_entry)" where
  "shape_of_row fw fh row =
     (case row of
        [] \<Rightarrow> Inl KeyError
      | [T] \<Rightarrow> Inl KeyError
      | T # identifier # coordinates \<Rightarrow>
          (let landmarks = pairwise_iter coordinates
           in if landmarks = [] then Inl (IndexError ''too many indices for array'')
              else Inr (T, (py_int identifier,
                     map (\<lambda>(x, y). (np_round (x * of_int fw), np_round (y * of_int fh)))
                       landmarks))))"

text \<open>The suspension points of the landmark generator: lines 169, 198, 202 and 210.\<close>

datatype shape_pc =
    ShapeStart "shape_row list"
  | ShapeWait "shape_row list" "shape_entry list" real "real \<times> shape_entry"
  | ShapeDelivered "shape_row list" "real \<times> shape_entry"
  | ShapeEnd "shape_entry list" "real option"

record landmark_generator =
  lm_frame_width :: int
  lm_frame_height :: int
  n_points :: real
  lm_pc :: shape_pc

text \<open>Lines 194--207.\<close>

definition shape_wait ::
  "real \<Rightarrow> shape_row list \<Rightarrow> shape_entry list \<Rightarrow> real \<Rightarrow> real \<times> shape_entry
     \<Rightarrow> shape_reply \<times> shape_pc" where
  "shape_wait t rows shapes currentT hand =
     (if currentT > t then ((t, []), ShapeWait rows shapes currentT hand)
      else ((currentT, shapes), ShapeDelivered rows hand))"

text \<open>The \<open>for\<close> loop of line 174; an exception of lines 176--181 ends the run.\<close>

fun shape_loop ::
  "int \<Rightarrow> int \<Rightarrow> real \<Rightarrow> shape_row list \<Rightarrow> shape_entry list \<Rightarrow> real option
     \<Rightarrow> py_error + (shape_reply \<times> shape_pc)" where
  "shape_loop fw fh t [] shapes currentT = Inr ((t, []), ShapeEnd shapes currentT)"
| "shape_loop fw fh t (row # rows) shapes currentT =
     (case shape_of_row fw fh row of
        Inl err \<Rightarrow> Inl err
      | Inr (T, entry) \<Rightarrow>
          (case currentT of
             None \<Rightarrow> shape_loop fw fh t rows (shapes @ [entry]) (Some T)
           | Some c \<Rightarrow>
               if T = c then shape_loop fw fh t rows (shapes @ [entry]) (Some T)
               else Inr (shape_wait t rows shapes c (T, entry))))"

definition shape_send ::
  "landmark_generator \<Rightarrow> real \<Rightarrow> py_error + (shape_reply \<times> landmark_generator)" where
  "shape_send g t =
     (case (case lm_pc g of
              ShapeStart rows \<Rightarrow> shape_loop (lm_frame_width g) (lm_frame_height g) t rows [] None
            | ShapeWait rows shapes currentT hand \<Rightarrow> Inr (shape_wait t rows shapes currentT hand)
            | ShapeDelivered rows (T, entry) \<Rightarrow>
                shape_loop (lm_frame_width g) (lm_frame_height g) t rows [entry] (Some T)
            | ShapeEnd shapes currentT \<Rightarrow> Inr ((t, []), ShapeEnd shapes currentT)) of
        Inl err \<Rightarrow> Inl err
      | Inr (reply, pc') \<Rightarrow> Inr (reply, g\<lparr>lm_pc := pc'\<rparr>))"

text \<open>The generator after \<open>getLandmarkGenerator(...)\<close> and \<open>send(None)\<close> (lines 285--286,
  326--328): lines 162--166 have run. The table is iterated as \<open>read_table\<close> returned
  it; \<open>d\<close> is its number of columns, the length of each of its rows.\<close>

definition getLandmarkGenerator :: "shape_row list \<Rightarrow> int \<Rightarrow> int \<Rightarrow> landmark_generator" where
  "getLandmarkGenerator shape fw fh =
     \<lparr>lm_frame_width = fw, lm_frame_height = fh,
      n_points = n_points_of (case shape of [] \<Rightarrow> 0 | row # _ \<Rightarrow> length row),
      lm_pc = ShapeStart shape\<rparr>"

text \<open>A driver loop over the landmark generator: the replies received, and the exception
  that ended the loop if one did.\<close>

fun shape_replies :: "landmark_generator \<Rightarrow> real list \<Rightarrow> shape_reply list \<times> py_error option" where
  "shape_replies g [] = ([], None)"
| "shape_replies g (t # ts) =
     (case shape_send g t of
        Inl err \<Rightarrow> ([], Some err)
      | Inr (reply, g') \<Rightarrow> (case shape_replies g' ts of (replies, err) \<Rightarrow> (reply # replies, err)))"

text \<open>What holds of a suspended landmark generator whose rows ahead have their times
  in S: the buffer of a waiting generator is not empty, and its time and the time of
  the row in hand are in S.\<close>

fun shape_inv :: "real set \<Rightarrow> shape_pc \<Rightarrow> bool" where
  "shape_inv S (ShapeStart rows) = (hd ` set rows \<subseteq> S)"
| "shape_inv S (ShapeWait rows shapes currentT hand) =
     (shapes \<noteq> [] \<and> currentT \<in> S \<and> fst hand \<in> S \<and> hd ` set rows \<subseteq> S)"
| "shape_inv S (ShapeDelivered rows hand) = (fst hand \<in> S \<and> hd ` set rows \<subseteq> S)"
| "shape_inv S (ShapeEnd shapes currentT) = True"

subsection \<open>The demo overlay: \<open>get_fl\<close> (lines 308--372)\<close>

type_synonym color = "int \<times> int \<times> int"

type_synonym point = "int \<times> int"

definition COLORS :: "color list" where
  "COLORS = [
    (240, 163, 255), (  0, 117, 220), (153,  63,   0), ( 76,   0,  92),
    ( 25,  25,  25), (  0,  92,  49), ( 43, 206,  72), (255, 204, 153),
    (128, 128, 128), (148, 255, 181), (143, 124,   0), (157, 204,   0),
    (194,   0, 136), (  0,  51, 128), (255, 164,   5), (255, 168, 187),
    ( 66, 102,   0), (255,   0,  16), ( 94, 241, 242), (  0, 153, 143),
    (224, 255, 102), (116,  10, 255), (153,   0,   0), (255, 255, 128),
    (255, 255,   0), (255,  80,   5)]"

text \<open>\<open>xs[i]\<close> on a Python list of length n: the item at i for i from 0 to n - 1, the
  item at n + i for i from -n to -1, and \<open>IndexError\<close> for any other i.\<close>

definition py_index :: "'a list \<Rightarrow> int \<Rightarrow> py_error + 'a" where
  "py_index xs i =
     (if 0 \<le> i \<and> i < int (length xs) then Inr (xs ! nat i)
      else if - int (length xs) \<le> i \<and> i < 0 then Inr (xs ! nat (int (length xs) + i))
      else Inl (IndexError ''list index out of range''))"

text \<open>\<open>landmark[k, 0]\<close> and \<open>landmark[k, 1]\<close> for a constant k that is not negative: row k
  of the array, or \<open>IndexError\<close>.\<close>

definition np_row :: "landmarks_t \<Rightarrow> nat \<Rightarrow> py_error + (real \<times> real)" where
  "np_row landmark k =
     (if k < length landmark then Inr (landmark ! k)
      else Inl (IndexError ''index is out of bounds for axis 0''))"

text \<open>\<open>face.left()\<close> and its siblings.\<close>

fun rect_left :: "rectangle_t \<Rightarrow> real" where
  "rect_left (rectangle l t r b) = of_int l"
| "rect_left (drectangle l t r b) = l"

fun rect_top :: "rectangle_t \<Rightarrow> real" where
  "rect_top (rectangle l t r b) = of_int t"
| "rect_top (drectangle l t r b) = t"

fun rect_right :: "rectangle_t \<Rightarrow> real" where
  "rect_right (rectangle l t r b) = of_int r"
| "rect_right (drectangle l t r b) = r"

fun rect_bottom :: "rectangle_t \<Rightarrow> real" where
  "rect_bottom (rectangle l t r b) = of_int b"
| "rect_bottom (drectangle l t r b) = b"

text \<open>What \<open>overlay\<close> draws on the frame, in order: the calls of \<open>cv2.putText\<close>,
  \<open>cv2.rectangle\<close> and \<open>cv2.line\<close> with their text, points and color.\<close>

datatype overlay_text = TimeText real | IdentifierText int | LabelText string

datatype draw_cmd =
    PutText overlay_text point color
  | Rectangle point point color
  | Line point point color

text \<open>Line 344.\<close>

definition face_color :: "int \<Rightarrow> py_error + color" where
  "face_color identifier = py_index COLORS (identifier mod int (length COLORS))"

text \<open>Lines 365--367: the landmark set at position i of the landmark reply, its own
  identifier discarded, and its points 27 and 33.\<close>

definition nose_line :: "shape_entry list \<Rightarrow> nat \<Rightarrow> py_error + (point \<times> point)" where
  "nose_line landmarks i =
     (case py_index landmarks (int i) of
        Inl err \<Rightarrow> Inl err
      | Inr (_, landmark) \<Rightarrow>
          (case np_row landmark 27 of
             Inl err \<Rightarrow> Inl err
           | Inr (x27, y27) \<Rightarrow>
               (case np_row landmark 33 of
                  Inl err \<Rightarrow> Inl err
                | Inr (x33, y33) \<Rightarrow>
                    Inr ((py_int x27, py_int y27), (py_int x33, py_int y33)))))"

text \<open>The body of the loop of line 343 for the face at position i; \<open>landmarks\<close> is
  \<open>None\<close> when no shape file was given.\<close>

definition draw_face ::
  "nat \<Rightarrow> face_entry \<Rightarrow> shape_entry list option \<Rightarrow> (int \<rightharpoonup> string)
     \<Rightarrow> py_error + draw_cmd list" where
  "draw_face i entry landmarks labels =
     (case entry of (identifier, face, status) \<Rightarrow>
        (case face_color identifier of
           Inl err \<Rightarrow> Inl err
         | Inr color \<Rightarrow>
             (let pt1 = (py_int (rect_left face), py_int (rect_top face));
                  pt2 = (py_int (rect_right face), py_int (rect_bottom face));
                  label = (case labels identifier of None \<Rightarrow> [] | Some l \<Rightarrow> l);
                  box = [Rectangle pt1 pt2 color,
                         PutText (IdentifierText identifier) (fst pt1, snd pt2 + 15) (255, 0, 0),
                         PutText (LabelText label) (fst pt1, snd pt1 - 7) (255, 0, 0)]
              in (case landmarks of
                    None \<Rightarrow> Inr box
                  | Some lms \<Rightarrow>
                      (case nose_line lms i of
                         Inl err \<Rightarrow> Inl err
                       | Inr (p27, p33) \<Rightarrow> Inr (box @ [Line p27 p33 color]))))))"

text \<open>The loop of line 343, \<open>enumerate\<close> counting from i.\<close>

fun draw_faces ::
  "nat \<Rightarrow> face_entry list \<Rightarrow> shape_entry list option \<Rightarrow> (int \<rightharpoonup> string)
     \<Rightarrow> py_error + draw_cmd list" where
  "draw_faces i [] landmarks labels = Inr []"
| "draw_faces i (entry # faces) landmarks labels =
     (case draw_face i entry landmarks labels of
        Inl err \<Rightarrow> Inl err
      | Inr cmds \<Rightarrow>
          (case draw_faces (Suc i) faces landmarks labels of
             Inl err \<Rightarrow> Inl err
           | Inr rest \<Rightarrow> Inr (cmds @ rest)))"

text \<open>The closure that \<open>get_fl\<close> returns holds both generators, the shift and the
  labels.\<close>

record overlay_closure =
  faceGenerator :: face_generator
  landmarkGenerator :: "landmark_generator option"
  shift :: real
  labels :: "int \<rightharpoonup> string"

definition get_fl ::
  "tracking_row list \<Rightarrow> int \<Rightarrow> int \<Rightarrow> shape_row list option \<Rightarrow> real \<Rightarrow> (int \<rightharpoonup> string) option
     \<Rightarrow> overlay_closure" where
  "get_fl tracking fw fh shape shft lbls =
     \<lparr>faceGenerator = getFaceGenerator tracking fw fh True,
      landmarkGenerator = map_option (\<lambda>s. getLandmarkGenerator s fw fh) shape,
      shift = shft,
      labels = (case lbls of None \<Rightarrow> Map.empty | Some l \<Rightarrow> l)\<rparr>"

text \<open>\<open>overlay\<close> (lines 333--370) on a frame of the given height: the drawing commands
  and the closure with its generators advanced, or the exception.\<close>

definition overlay ::
  "overlay_closure \<Rightarrow> int \<Rightarrow> real \<Rightarrow> py_error + (draw_cmd list \<times> overlay_closure)" where
  "overlay c height timestamp =
     (case face_send (faceGenerator c) (timestamp - shift c) of (face_reply, fg') \<Rightarrow>
        (case (case landmarkGenerator c of
                 None \<Rightarrow> Inr (None, None)
               | Some lg \<Rightarrow>
                   (case shape_send lg (timestamp - shift c) of
                      Inl err \<Rightarrow> Inl err
                    | Inr (shape_reply, lg') \<Rightarrow> Inr (Some (snd shape_reply), Some lg'))) of
           Inl err \<Rightarrow> Inl err
         | Inr (landmarks, lg') \<Rightarrow>
             (case draw_faces 0 (snd face_reply) landmarks (labels c) of
                Inl err \<Rightarrow> Inl err
              | Inr cmds \<Rightarrow>
                  Inr (PutText (TimeText timestamp) (10, height - 10) (255, 0, 0) # cmds,
                       c\<lparr>faceGenerator := fg', landmarkGenerator := lg'\<rparr>))))"

text \<open>The colors of the rectangles and lines among drawing commands, the lines among
  them, and the two ends of the nose line of a landmark set: its points 27 and 33,
  truncated by \<open>int\<close>.\<close>

fun drawn_colors :: "draw_cmd list \<Rightarrow> color list" where
  "drawn_colors [] = []"
| "drawn_colors (Rectangle p q c # cmds) = c # drawn_colors cmds"
| "drawn_colors (Line p q c # cmds) = c # drawn_colors cmds"
| "drawn_colors (PutText txt p c # cmds) = drawn_colors cmds"

fun lines_drawn :: "draw_cmd list \<Rightarrow> (point \<times> point \<times> color) list" where
  "lines_drawn [] = []"
| "lines_drawn (Line p q c # cmds) = (p, q, c) # lines_drawn cmds"
| "lines_drawn (Rectangle p q c # cmds) = lines_drawn cmds"
| "lines_drawn (PutText txt p c # cmds) = lines_drawn cmds"

definition nose_of :: "landmarks_t \<Rightarrow> point \<times> point" where
  "nose_of landmark =
     ((py_int (fst (landmark ! 27)), py_int (snd (landmark ! 27))),
      (py_int (fst (landmark ! 33)), py_int (snd (landmark ! 33))))"

subsection \<open>Groups and the replay they should get\<close>

text \<open>A group is all the records of one timestamp. \<open>group_times\<close> are the timestamps of
  a tracking file in ascending order, \<open>group_of\<close> the face tuples of one timestamp in the
  order of the sorted table, \<open>groups_of\<close> the groups in ascending order of time.\<close>

definition group_times :: "tracking_row list \<Rightarrow> real list" where
  "group_times tracking = sorted_list_of_set (row_t ` set tracking)"

definition group_of :: "int \<Rightarrow> int \<Rightarrow> bool \<Rightarrow> tracking_row list \<Rightarrow> real \<Rightarrow> face_entry list" where
  "group_of fw fh dbl tracking g =
     map (\<lambda>row. snd (face_of_row fw fh dbl row))
       (filter (\<lambda>row. row_t row = g) (sort_values tracking))"

definition groups_of :: "int \<Rightarrow> int \<Rightarrow> bool \<Rightarrow> tracking_row list \<Rightarrow> face_reply list" where
  "groups_of fw fh dbl tracking =
     map (\<lambda>g. (g, group_of fw fh dbl tracking g)) (group_times tracking)"

text \<open>The maximal runs of consecutive records with one time, each with its time.\<close>

function runs :: "(real \<times> 'e) list \<Rightarrow> (real \<times> 'e list) list" where
  "runs [] = []"
| "runs ((T, e) # rs) =
     (T, e # map snd (takeWhile (\<lambda>r. fst r = T) rs)) # runs (dropWhile (\<lambda>r. fst r = T) rs)"
  by pat_completeness auto
termination
  by (relation "measure length") (auto simp: length_dropWhile_le less_Suc_eq_le)

text \<open>Serving a list of closed groups, one reply per query: the first group is held
  while the query is before its time and is returned, alone, by the first query at or
  after it.\<close>

fun replay :: "(real \<times> 'e list) list \<Rightarrow> real list \<Rightarrow> (real \<times> 'e list) list" where
  "replay groups [] = []"
| "replay [] (t # ts) = (t, []) # replay [] ts"
| "replay ((g, es) # groups) (t # ts) =
     (if g > t then (t, []) # replay ((g, es) # groups) ts
      else (g, es) # replay groups ts)"

text \<open>The groups a suspended face generator has closed or will close: every run of the
  rows ahead but the last one, which no later row closes.\<close>

fun closed_groups :: "int \<Rightarrow> int \<Rightarrow> bool \<Rightarrow> face_pc \<Rightarrow> face_reply list" where
  "closed_groups fw fh dbl (FaceStart rows) = butlast (runs (map (face_of_row fw fh dbl) rows))"
| "closed_groups fw fh dbl (FaceWait rows faces currentT hand) =
     (currentT, faces) # butlast (runs (hand # map (face_of_row fw fh dbl) rows))"
| "closed_groups fw fh dbl (FaceDelivered rows hand) =
     butlast (runs (hand # map (face_of_row fw fh dbl) rows))"
| "closed_groups fw fh dbl (FaceEnd faces currentT) = []"

section \<open>Properties\<close>

subsection \<open>The face generator replays the closed groups\<close>

lemma runs_Cons_not_Nil: "runs (r # rs) \<noteq> []"
  by (cases r) simp

lemma replay_Nil: "replay [] ts = map (\<lambda>t. (t, [])) ts"
  by (induction ts) simp_all

lemma face_wait_step:
  "face_wait t rows faces c hand = (reply, pc') \<Longrightarrow>
   replay ((c, faces) # butlast (runs (hand # map (face_of_row fw fh dbl) rows))) (t # ts)
     = reply # replay (closed_groups fw fh dbl pc') ts"
  by (auto simp: face_wait_def split: if_splits)

lemma face_loop_step:
  "face_loop fw fh dbl t rows faces (Some c) = (reply, pc') \<Longrightarrow>
   replay (butlast ((c, faces @ map snd (takeWhile (\<lambda>r. fst r = c) (map (face_of_row fw fh dbl) rows)))
              # runs (dropWhile (\<lambda>r. fst r = c) (map (face_of_row fw fh dbl) rows)))) (t # ts)
     = reply # replay (closed_groups fw fh dbl pc') ts"
proof (induction rows arbitrary: faces)
  case Nil
  then show ?case by auto
next
  case (Cons row rows)
  obtain T entry where row: "face_of_row fw fh dbl row = (T, entry)"
    by (cases "face_of_row fw fh dbl row")
  show ?case
  proof (cases "T = c")
    case True
    with Cons.prems row have "face_loop fw fh dbl t rows (faces @ [entry]) (Some c) = (reply, pc')"
      by simp
    from Cons.IH [OF this] show ?thesis using True row by simp
  next
    case False
    with Cons.prems row have "face_wait t rows faces c (T, entry) = (reply, pc')"
      by simp
    from face_wait_step [OF this, of fw fh dbl ts] show ?thesis
      using False row by (simp add: runs_Cons_not_Nil)
  qed
qed

lemma face_send_step:
  assumes "face_send g t = (reply, g')"
  shows "replay (closed_groups (frame_width g) (frame_height g) (double g) (pc g)) (t # ts)
           = reply # replay (closed_groups (frame_width g) (frame_height g) (double g) (pc g')) ts"
proof (cases "pc g")
  case (FaceStart rows)
  show ?thesis
  proof (cases rows)
    case Nil
    with FaceStart assms show ?thesis by (auto simp: face_send_def)
  next
    case (Cons row rows')
    obtain T entry where row: "face_of_row (frame_width g) (frame_height g) (double g) row = (T, entry)"
      by (cases "face_of_row (frame_width g) (frame_height g) (double g) row")
    with FaceStart Cons assms
    have "face_loop (frame_width g) (frame_height g) (double g) t rows' [entry] (Some T) = (reply, pc g')"
      by (auto simp: face_send_def split: prod.splits)
    from face_loop_step [OF this, of ts] show ?thesis
      using FaceStart Cons row by simp
  qed
next
  case (FaceWait rows faces c hand)
  with assms have "face_wait t rows faces c hand = (reply, pc g')"
    by (auto simp: face_send_def split: prod.splits)
  from face_wait_step [OF this, of "frame_width g" "frame_height g" "double g" ts]
  show ?thesis using FaceWait by simp
next
  case (FaceDelivered rows hand)
  obtain T entry where hand: "hand = (T, entry)" by (cases hand)
  with FaceDelivered assms
  have "face_loop (frame_width g) (frame_height g) (double g) t rows [entry] (Some T) = (reply, pc g')"
    by (auto simp: face_send_def split: prod.splits)
  from face_loop_step [OF this, of ts] show ?thesis
    using FaceDelivered hand by simp
next
  case (FaceEnd faces c)
  with assms show ?thesis by (auto simp: face_send_def)
qed

lemma face_send_config:
  "face_send g t = (reply, g') \<Longrightarrow>
   frame_width g' = frame_width g \<and> frame_height g' = frame_height g \<and> double g' = double g"
  by (auto simp: face_send_def split: prod.splits)

lemma face_replies_replay:
  "face_replies g ts = replay (closed_groups (frame_width g) (frame_height g) (double g) (pc g)) ts"
proof (induction ts arbitrary: g)
  case Nil
  show ?case by simp
next
  case (Cons t ts)
  obtain reply g' where step: "face_send g t = (reply, g')"
    by (cases "face_send g t")
  from face_send_step [OF step, of ts] face_send_config [OF step] Cons.IH [of g']
  show ?case using step by simp
qed


lemma sorted_takeWhile_filter:
  "sorted (map f xs) \<Longrightarrow> \<forall>x\<in>set xs. k \<le> f x \<Longrightarrow>
   takeWhile (\<lambda>x. f x = k) xs = filter (\<lambda>x. f x = k) xs"
  for f :: "'a \<Rightarrow> real"
proof (induction xs)
  case Nil
  show ?case by simp
next
  case (Cons x xs)
  show ?case
  proof (cases "f x = k")
    case True
    with Cons show ?thesis by simp
  next
    case False
    with Cons.prems have "\<forall>y\<in>set xs. k < f y" by fastforce
    then have "filter (\<lambda>x. f x = k) xs = []" by (auto simp: filter_empty_conv)
    with False show ?thesis by simp
  qed
qed

lemma sorted_dropWhile_filter:
  "sorted (map f xs) \<Longrightarrow> \<forall>x\<in>set xs. k \<le> f x \<Longrightarrow>
   dropWhile (\<lambda>x. f x = k) xs = filter (\<lambda>x. f x \<noteq> k) xs"
  for f :: "'a \<Rightarrow> real"
proof (induction xs)
  case Nil
  show ?case by simp
next
  case (Cons x xs)
  show ?case
  proof (cases "f x = k")
    case True
    with Cons show ?thesis by simp
  next
    case False
    with Cons.prems have "\<forall>y\<in>set xs. f y \<noteq> k" by fastforce
    then have "filter (\<lambda>x. f x \<noteq> k) xs = xs" by (auto simp: filter_id_conv)
    with False show ?thesis by simp
  qed
qed

lemma runs_sorted:
  "sorted (map fst rs) \<Longrightarrow>
   runs rs = map (\<lambda>g. (g, map snd (filter (\<lambda>r. fst r = g) rs)))
               (sorted_list_of_set (fst ` set rs))"
proof (induction rs rule: runs.induct)
  case 1
  show ?case by simp
next
  case (2 T e rs)
  let ?D = "dropWhile (\<lambda>r. fst r = T) rs"
  from "2.prems" have ge: "\<forall>r\<in>set rs. T \<le> fst r" and srt: "sorted (map fst rs)"
    by auto
  have D: "?D = filter (\<lambda>r. fst r \<noteq> T) rs"
    using sorted_dropWhile_filter [OF srt ge] .
  have Tk: "takeWhile (\<lambda>r. fst r = T) rs = filter (\<lambda>r. fst r = T) rs"
    using sorted_takeWhile_filter [OF srt ge] .
  have sD: "sorted (map fst ?D)"
    unfolding D using srt by (simp add: sorted_map sorted_wrt_filter)
  have setD: "fst ` set ?D = fst ` set rs - {T}"
    unfolding D by auto
  have gt: "\<forall>g\<in>fst ` set ?D. T < g"
    unfolding D using ge by fastforce
  have times: "sorted_list_of_set (fst ` set ((T, e) # rs)) = T # sorted_list_of_set (fst ` set ?D)"
  proof -
    have "fst ` set ((T, e) # rs) = insert T (fst ` set ?D)"
      using setD by auto
    moreover have "sorted_list_of_set (insert T (fst ` set ?D)) = T # sorted_list_of_set (fst ` set ?D)"
    proof -
      have notin: "T \<notin> fst ` set ?D" using gt by auto
      have "sorted_list_of_set (insert T (fst ` set ?D)) = insort T (sorted_list_of_set (fst ` set ?D))"
        using notin by (simp add: sorted_list_of_set_insert_remove)
      also have "\<dots> = T # sorted_list_of_set (fst ` set ?D)"
        using gt by (intro insort_is_Cons) (auto simp: less_imp_le)
      finally show ?thesis .
    qed
    ultimately show ?thesis by simp
  qed
  have grp: "map (\<lambda>g. (g, map snd (filter (\<lambda>r. fst r = g) ?D))) (sorted_list_of_set (fst ` set ?D))
           = map (\<lambda>g. (g, map snd (filter (\<lambda>r. fst r = g) ((T, e) # rs)))) (sorted_list_of_set (fst ` set ?D))"
  proof (rule map_cong [OF refl])
    fix g assume "g \<in> set (sorted_list_of_set (fst ` set ?D))"
    then have "g \<in> fst ` set ?D" by simp
    with gt have neq: "T \<noteq> g" by auto
    have "filter (\<lambda>r. fst r = g) ?D = filter (\<lambda>r. fst r = g) rs"
      unfolding D using neq by (auto intro: filter_cong)
    with neq show "(g, map snd (filter (\<lambda>r. fst r = g) ?D)) = (g, map snd (filter (\<lambda>r. fst r = g) ((T, e) # rs)))"
      by simp
  qed
  show ?case
    using "2.IH" [OF sD] times grp Tk by simp
qed


lemma fst_face_of_row: "fst (face_of_row fw fh dbl row) = row_t row"
  by (cases row) (simp add: face_of_row_def row_t_def Let_def)

lemma runs_sort_values:
  "runs (map (face_of_row fw fh dbl) (sort_values tracking)) = groups_of fw fh dbl tracking"
proof -
  let ?rs = "map (face_of_row fw fh dbl) (sort_values tracking)"
  have fst_rs: "map fst ?rs = map row_t (sort_values tracking)"
    by (simp add: fst_face_of_row)
  have "sorted (map row_t (sort_values tracking))"
    by (simp add: sort_values_def)
  then have "sorted (map fst ?rs)"
    by (simp only: fst_rs)
  from runs_sorted [OF this]
  have "runs ?rs = map (\<lambda>g. (g, map snd (filter (\<lambda>r. fst r = g) ?rs)))
                     (sorted_list_of_set (fst ` set ?rs))" .
  moreover have "fst ` set ?rs = row_t ` set tracking"
    by (auto simp: sort_values_def fst_face_of_row image_image)
  moreover have "\<And>g. map snd (filter (\<lambda>r. fst r = g) ?rs) = group_of fw fh dbl tracking g"
    by (simp add: group_of_def filter_map o_def fst_face_of_row)
  ultimately show ?thesis
    by (simp add: groups_of_def group_times_def)
qed

lemma face_replies_groups:
  "face_replies (getFaceGenerator tracking fw fh dbl) ts
     = replay (butlast (groups_of fw fh dbl tracking)) ts"
  using face_replies_replay [of "getFaceGenerator tracking fw fh dbl" ts]
  by (simp add: getFaceGenerator_def runs_sort_values)



lemma replay_length: "length (replay G ts) = length ts"
  by (induction G ts rule: replay.induct) simp_all

lemma replay_set:
  "r \<in> set (replay G ts) \<Longrightarrow> r \<in> set G \<or> (\<exists>t\<in>set ts. r = (t, []))"
  by (induction G ts rule: replay.induct) (auto split: if_splits)

lemma replay_times:
  "list_all2 (\<lambda>t r. fst r \<le> t \<and> (r = (t, []) \<or> r \<in> set G)) ts (replay G ts)"
proof (induction G ts rule: replay.induct)
  case (3 g es groups t ts)
  show ?case
  proof (cases "g > t")
    case True
    with 3 show ?thesis by simp
  next
    case False
    with 3 have "list_all2 (\<lambda>t r. fst r \<le> t \<and> (r = (t, []) \<or> r \<in> set groups)) ts (replay groups ts)"
      by simp
    then have "list_all2 (\<lambda>t r. fst r \<le> t \<and> (r = (t, []) \<or> r \<in> set ((g, es) # groups))) ts (replay groups ts)"
      by (rule list_all2_mono) auto
    with False show ?thesis by simp
  qed
qed simp_all

lemma replay_nonempty_take:
  "\<forall>g\<in>set G. snd g \<noteq> [] \<Longrightarrow>
   \<exists>n\<le>length G. filter (\<lambda>r. snd r \<noteq> []) (replay G ts) = take n G"
proof (induction G ts rule: replay.induct)
  case (1 groups)
  show ?case by (intro exI [of _ 0]) simp
next
  case (2 t ts)
  then show ?case by simp
next
  case (3 g es groups t ts)
  show ?case
  proof (cases "g > t")
    case True
    with 3 show ?thesis by simp
  next
    case False
    with 3 obtain n where "n \<le> length groups"
      "filter (\<lambda>r. snd r \<noteq> []) (replay groups ts) = take n groups"
      by auto
    with False "3.prems" show ?thesis
      by (intro exI [of _ "Suc n"]) simp
  qed
qed

lemma replay_all:
  "\<forall>g\<in>set G. snd g \<noteq> [] \<Longrightarrow>
   length G \<le> length (filter (\<lambda>t. \<forall>g\<in>set G. fst g \<le> t) ts) \<Longrightarrow>
   filter (\<lambda>r. snd r \<noteq> []) (replay G ts) = G"
proof (induction G ts rule: replay.induct)
  case (1 groups)
  then show ?case by simp
next
  case (2 t ts)
  show ?case by (simp add: replay_Nil filter_empty_conv)
next
  case (3 g es groups t ts)
  show ?case
  proof (cases "g > t")
    case True
    with "3.prems" have "length ((g, es) # groups)
        \<le> length (filter (\<lambda>t. \<forall>g\<in>set ((g, es) # groups). fst g \<le> t) ts)"
      by auto
    with 3 True show ?thesis by simp
  next
    case False
    have "length (filter (\<lambda>t. \<forall>g\<in>set ((g, es) # groups). fst g \<le> t) ts)
        \<le> length (filter (\<lambda>t. \<forall>g\<in>set groups. fst g \<le> t) ts)"
      by (induction ts) auto
    moreover from "3.prems" have "length groups
        \<le> length (filter (\<lambda>t. \<forall>g\<in>set ((g, es) # groups). fst g \<le> t) ts)"
      by (auto split: if_splits)
    ultimately have "length groups \<le> length (filter (\<lambda>t. \<forall>g\<in>set groups. fst g \<le> t) ts)"
      by simp
    with 3 False show ?thesis by simp
  qed
qed

lemma group_times_props:
  "sorted (group_times tracking)" "distinct (group_times tracking)"
  "set (group_times tracking) = row_t ` set tracking"
  by (simp_all add: group_times_def)

lemma groups_of_nonempty: "g \<in> set (groups_of fw fh dbl tracking) \<Longrightarrow> snd g \<noteq> []"
  by (auto simp: groups_of_def group_of_def group_times_props sort_values_def filter_empty_conv)

lemma groups_of_distinct: "distinct (groups_of fw fh dbl tracking)"
  by (simp add: groups_of_def distinct_map group_times_props inj_on_def)

lemma groups_of_member:
  "(T, fs) \<in> set (groups_of fw fh dbl tracking) \<longleftrightarrow>
     T \<in> row_t ` set tracking \<and> fs = group_of fw fh dbl tracking T"
  by (auto simp: groups_of_def group_times_props)

lemma face_reply_cases:
  "r \<in> set (face_replies (getFaceGenerator tracking fw fh dbl) ts) \<Longrightarrow>
   snd r = [] \<or> r \<in> set (butlast (groups_of fw fh dbl tracking))"
  by (auto simp: face_replies_groups dest: replay_set)

lemma count_list_distinct: "distinct xs \<Longrightarrow> count_list xs x = (if x \<in> set xs then 1 else 0)"
  by (induction xs) auto

lemma count_list_filter:
  "P x \<Longrightarrow> count_list (filter P xs) x = count_list xs x"
  by (induction xs) auto

lemma group_times_sort: "group_times tracking = sort (remdups (map row_t tracking))"
  unfolding group_times_def set_map [symmetric] by (rule sorted_list_of_set_sort_remdups)

lemmas face_eval = getFaceGenerator_def sort_values_def row_t_def face_send_def face_of_row_def
  py_int_def face_wait_def groups_of_def group_of_def group_times_sort

subsection \<open>Delivery of the groups\<close>

text \<open>
  C1, as amended. For every tracking file, with its groups in ascending order of time,
  and every sequence of queries: the non-empty replies of the face generator are, in
  order, the first n groups for some n, so that no group is returned in two replies and
  none is passed over before a later one is returned; and when at least as many queries
  as there are groups but the last are at or after the time of every group but the last,
  each group but the last is returned in exactly one reply. A query returns one group
  at most, so a sequence that ends at or after the last group's time does not suffice:
  it must hold enough queries.
\<close>

theorem closed_groups_delivered_once:
  "(\<exists>n. filter (\<lambda>r. snd r \<noteq> []) (face_replies (getFaceGenerator tracking fw fh dbl) ts)
          = take n (groups_of fw fh dbl tracking))
   \<and> (\<forall>g\<in>set (groups_of fw fh dbl tracking).
          count_list (face_replies (getFaceGenerator tracking fw fh dbl) ts) g \<le> 1)
   \<and> (length (groups_of fw fh dbl tracking) - 1
         \<le> length (filter (\<lambda>t. \<forall>g\<in>set (butlast (groups_of fw fh dbl tracking)). fst g \<le> t) ts)
       \<longrightarrow> (\<forall>g\<in>set (butlast (groups_of fw fh dbl tracking)).
              count_list (face_replies (getFaceGenerator tracking fw fh dbl) ts) g = 1))"
proof -
  let ?gs = "groups_of fw fh dbl tracking"
  let ?replies = "face_replies (getFaceGenerator tracking fw fh dbl) ts"
  let ?nonempty = "filter (\<lambda>r. snd r \<noteq> []) ?replies"
  have closed: "\<forall>g\<in>set (butlast ?gs). snd g \<noteq> []"
    by (auto dest: in_set_butlastD groups_of_nonempty)
  have repl: "?replies = replay (butlast ?gs) ts"
    by (rule face_replies_groups)
  from replay_nonempty_take [OF closed, of ts] obtain n
    where n: "n \<le> length (butlast ?gs)" "?nonempty = take n (butlast ?gs)"
    unfolding repl by blast
  then have take: "?nonempty = take n ?gs"
    by (simp add: butlast_conv_take)
  have count: "count_list ?replies g = count_list ?nonempty g" if "g \<in> set ?gs" for g
    using groups_of_nonempty [OF that] by (simp add: count_list_filter)
  have "distinct (take n ?gs)"
    by (simp add: groups_of_distinct)
  then have le: "\<forall>g\<in>set ?gs. count_list ?replies g \<le> 1"
    by (simp add: count take count_list_distinct)
  have all: "\<forall>g\<in>set (butlast ?gs). count_list ?replies g = 1"
    if enough: "length ?gs - 1 \<le> length (filter (\<lambda>t. \<forall>g\<in>set (butlast ?gs). fst g \<le> t) ts)"
  proof
    fix g assume g: "g \<in> set (butlast ?gs)"
    from enough have "length (butlast ?gs) \<le> length (filter (\<lambda>t. \<forall>g\<in>set (butlast ?gs). fst g \<le> t) ts)"
      by simp
    from replay_all [OF closed this] have "?nonempty = butlast ?gs"
      unfolding repl .
    moreover have "distinct (butlast ?gs)"
      by (simp add: groups_of_distinct distinct_butlast)
    ultimately show "count_list ?replies g = 1"
      using g count [OF in_set_butlastD [OF g]] by (simp add: count_list_distinct)
  qed
  from take le all show ?thesis by blast
qed

text \<open>C1 as amended, at a file with groups at 1, 2 and 3 and the queries 1, 2, 3: two
  queries are at or after the times 1 and 2, and the groups of 1 and 2 are each returned
  once.\<close>

theorem closed_groups_delivered_once_witness:
  "2 \<le> length (filter (\<lambda>t. 1 \<le> t \<and> 2 \<le> t) [1, 2, 3 :: real])
   \<and> count_list (face_replies (getFaceGenerator
        [(1, 0, 0.1, 0.1, 0.3, 0.3, ''ok''), (2, 0, 0.1, 0.1, 0.3, 0.3, ''ok''),
         (3, 0, 0.1, 0.1, 0.3, 0.3, ''ok'')] 100 100 False) [1, 2, 3])
        (1, [(0, rectangle 10 10 30 30, ''ok'')]) = 1
   \<and> count_list (face_replies (getFaceGenerator
        [(1, 0, 0.1, 0.1, 0.3, 0.3, ''ok''), (2, 0, 0.1, 0.1, 0.3, 0.3, ''ok''),
         (3, 0, 0.1, 0.1, 0.3, 0.3, ''ok'')] 100 100 False) [1, 2, 3])
        (2, [(0, rectangle 10 10 30 30, ''ok'')]) = 1"
  using closed_groups_delivered_once [of "[(1, 0, 0.1, 0.1, 0.3, 0.3, ''ok''), (2, 0, 0.1, 0.1, 0.3, 0.3, ''ok''),
         (3, 0, 0.1, 0.1, 0.3, 0.3, ''ok'')]" 100 100 False "[1, 2, 3]"]
  by (simp add: face_eval)

text \<open>C1 as stated fails: three groups at 1, 2 and 3 and the one query 3.5, which
  is at or after the last group's time, return the group of time 1 only; the group of
  time 2 is in no reply.\<close>

theorem middle_group_skipped_by_single_query:
  "groups_of 100 100 False
     [(1, 0, 0.1, 0.1, 0.3, 0.3, ''ok''), (2, 0, 0.1, 0.1, 0.3, 0.3, ''ok''),
      (3, 0, 0.1, 0.1, 0.3, 0.3, ''ok'')]
     = [(1, [(0, rectangle 10 10 30 30, ''ok'')]), (2, [(0, rectangle 10 10 30 30, ''ok'')]),
        (3, [(0, rectangle 10 10 30 30, ''ok'')])]
   \<and> face_replies (getFaceGenerator
        [(1, 0, 0.1, 0.1, 0.3, 0.3, ''ok''), (2, 0, 0.1, 0.1, 0.3, 0.3, ''ok''),
         (3, 0, 0.1, 0.1, 0.3, 0.3, ''ok'')] 100 100 False) [3.5]
     = [(1, [(0, rectangle 10 10 30 30, ''ok'')])]
   \<and> (3 :: real) \<le> last [3.5]
   \<and> count_list (face_replies (getFaceGenerator
        [(1, 0, 0.1, 0.1, 0.3, 0.3, ''ok''), (2, 0, 0.1, 0.1, 0.3, 0.3, ''ok''),
         (3, 0, 0.1, 0.1, 0.3, 0.3, ''ok'')] 100 100 False) [3.5])
        (2, [(0, rectangle 10 10 30 30, ''ok'')]) = 0"
  by (simp add: face_eval)

text \<open>
  C2. The file of the scenario holds one group, at time 1.000, and no later row closes
  it: the loop of line 114 ends with both faces in \<open>faces\<close>, and the loop of lines
  148--149 answers every query with no records. Queried at 0.9, 1.000 and 1.2 the
  generator returns three empty replies, with either rectangle variant; the claim
  expects the two faces in the reply to 1.000.
\<close>

theorem single_group_file_never_delivered:
  "face_replies (getFaceGenerator
      [(1.000, 0, 0.1, 0.1, 0.3, 0.3, ''ok''), (1.000, 1, 0.5, 0.5, 0.7, 0.7, ''ok'')]
      100 100 dbl) [0.9, 1.000, 1.2]
     = [(0.9, []), (1.000, []), (1.2, [])]"
  by (simp add: face_eval)

subsection \<open>Group atomicity\<close>

text \<open>
  C3. For every tracking file and every sequence of queries (non-decreasing or not),
  each reply of the face generator is empty or holds exactly the records of the sorted
  table whose time is the reply's time, which is a time of the file: a reply never
  mixes two timestamps and always holds the whole group. No two non-empty replies carry
  the same timestamp, so a group is never split across two replies.
\<close>

theorem reply_is_one_whole_group:
  "(\<forall>(T, fs)\<in>set (face_replies (getFaceGenerator tracking fw fh dbl) ts).
       fs = [] \<or>
       (T \<in> row_t ` set tracking \<and>
        fs = map (\<lambda>row. snd (face_of_row fw fh dbl row))
               (filter (\<lambda>row. row_t row = T) (sort_values tracking))))
   \<and> distinct (map fst (filter (\<lambda>r. snd r \<noteq> [])
                   (face_replies (getFaceGenerator tracking fw fh dbl) ts)))"
proof
  show "\<forall>(T, fs)\<in>set (face_replies (getFaceGenerator tracking fw fh dbl) ts).
       fs = [] \<or>
       (T \<in> row_t ` set tracking \<and>
        fs = map (\<lambda>row. snd (face_of_row fw fh dbl row))
               (filter (\<lambda>row. row_t row = T) (sort_values tracking)))"
  proof -
    have "T \<in> row_t ` set tracking \<and>
        fs = map (\<lambda>row. snd (face_of_row fw fh dbl row))
               (filter (\<lambda>row. row_t row = T) (sort_values tracking))"
      if "(T, fs) \<in> set (face_replies (getFaceGenerator tracking fw fh dbl) ts)" "fs \<noteq> []"
      for T fs
    proof -
      from that face_reply_cases [of "(T, fs)" tracking fw fh dbl ts]
      have "(T, fs) \<in> set (groups_of fw fh dbl tracking)"
        by (auto dest: in_set_butlastD)
      then show ?thesis
        by (simp add: groups_of_member group_of_def)
    qed
    then show ?thesis by blast
  qed
next
  let ?gs = "groups_of fw fh dbl tracking"
  have "\<forall>g\<in>set (butlast ?gs). snd g \<noteq> []"
    by (auto dest: in_set_butlastD groups_of_nonempty)
  from replay_nonempty_take [OF this, of ts] obtain n where
    "filter (\<lambda>r. snd r \<noteq> []) (face_replies (getFaceGenerator tracking fw fh dbl) ts)
       = take n (butlast ?gs)"
    unfolding face_replies_groups by blast
  moreover have "distinct (map fst (take n (butlast ?gs)))"
  proof -
    have "distinct (map fst ?gs)"
      by (simp add: groups_of_def o_def group_times_props)
    then have "distinct (take n (butlast (map fst ?gs)))"
      by (intro distinct_take distinct_butlast)
    then show ?thesis by (simp only: take_map [symmetric] map_butlast)
  qed
  ultimately show "distinct (map fst (filter (\<lambda>r. snd r \<noteq> [])
                   (face_replies (getFaceGenerator tracking fw fh dbl) ts)))"
    by simp
qed

text \<open>C3 at an unsorted file with two records at time 1 and one at time 2: the reply to
  the query 1 is the whole group of time 1.\<close>

theorem reply_is_one_whole_group_witness:
  "(1, [(0, rectangle 10 10 30 30, ''ok''), (1, rectangle 50 50 70 70, ''ok'')])
      \<in> set (face_replies (getFaceGenerator
           [(2, 1, 0.5, 0.5, 0.7, 0.7, ''ok''), (1, 0, 0.1, 0.1, 0.3, 0.3, ''ok''),
            (1, 1, 0.5, 0.5, 0.7, 0.7, ''ok'')] 100 100 False) [0.9, 1, 1.2])
   \<and> (1::real) \<in> row_t ` set [(2, 1, 0.5, 0.5, 0.7, 0.7, ''ok''), (1, 0, 0.1, 0.1, 0.3, 0.3, ''ok''),
            (1, 1, 0.5, 0.5, 0.7, 0.7, ''ok'')]
   \<and> [(0, rectangle 10 10 30 30, ''ok''), (1, rectangle 50 50 70 70, ''ok'')]
       = map (\<lambda>row. snd (face_of_row 100 100 False row))
           (filter (\<lambda>row. row_t row = 1)
              (sort_values [(2, 1, 0.5, 0.5, 0.7, 0.7, ''ok''), (1, 0, 0.1, 0.1, 0.3, 0.3, ''ok''),
                 (1, 1, 0.5, 0.5, 0.7, 0.7, ''ok'')]))
   \<and> distinct (map fst (filter (\<lambda>r. snd r \<noteq> [])
        (face_replies (getFaceGenerator
           [(2, 1, 0.5, 0.5, 0.7, 0.7, ''ok''), (1, 0, 0.1, 0.1, 0.3, 0.3, ''ok''),
            (1, 1, 0.5, 0.5, 0.7, 0.7, ''ok'')] 100 100 False) [0.9, 1, 1.2])))"
  using reply_is_one_whole_group [of "[(2, 1, 0.5, 0.5, 0.7, 0.7, ''ok''), (1, 0, 0.1, 0.1, 0.3, 0.3, ''ok''),
            (1, 1, 0.5, 0.5, 0.7, 0.7, ''ok'')]" 100 100 False "[0.9, 1, 1.2]"]
  by (simp add: face_eval)

subsection \<open>The two rectangle variants\<close>

text \<open>
  C7, as amended. The flag selects the type of the rectangles only: every face of every
  reply comes from a row of the file with the reply's time, the face's identifier and
  its status, and its four coordinates are the products of the row's normalised
  coordinates with the frame width (left, right) and height (top, bottom), truncated
  by \<open>int\<close>: held as doubles in a \<open>drectangle\<close> when the flag is set, as integers in a
  \<open>rectangle\<close> when it is not.
\<close>

theorem rectangle_variants:
  assumes "(T, fs) \<in> set (face_replies (getFaceGenerator tracking fw fh dbl) ts)"
    and "(identifier, face, status) \<in> set fs"
  shows "\<exists>left_n top_n right_n bottom_n.
           (T, identifier, left_n, top_n, right_n, bottom_n, status) \<in> set tracking \<and>
           face = (if dbl
                   then drectangle (of_int (py_int (left_n * of_int fw)))
                          (of_int (py_int (top_n * of_int fh)))
                          (of_int (py_int (right_n * of_int fw)))
                          (of_int (py_int (bottom_n * of_int fh)))
                   else rectangle (py_int (left_n * of_int fw)) (py_int (top_n * of_int fh))
                          (py_int (right_n * of_int fw)) (py_int (bottom_n * of_int fh)))"
proof -
  from assms(2) have "fs \<noteq> []" by auto
  with assms(1) face_reply_cases [of "(T, fs)" tracking fw fh dbl ts]
  have "(T, fs) \<in> set (groups_of fw fh dbl tracking)"
    by (auto dest: in_set_butlastD)
  then have "fs = group_of fw fh dbl tracking T"
    by (simp add: groups_of_member)
  with assms(2) obtain row where row: "row \<in> set tracking" "row_t row = T"
    "snd (face_of_row fw fh dbl row) = (identifier, face, status)"
    by (auto simp: group_of_def sort_values_def)
  obtain T' i l t r b s where "row = (T', i, l, t, r, b, s)"
    by (cases row)
  with row have "(T, identifier, l, t, r, b, status) \<in> set tracking"
    and "face = (if dbl
                   then drectangle (of_int (py_int (l * of_int fw)))
                          (of_int (py_int (t * of_int fh)))
                          (of_int (py_int (r * of_int fw)))
                          (of_int (py_int (b * of_int fh)))
                   else rectangle (py_int (l * of_int fw)) (py_int (t * of_int fh))
                          (py_int (r * of_int fw)) (py_int (b * of_int fh)))"
    by (auto simp: face_of_row_def row_t_def Let_def)
  then show ?thesis by blast
qed

text \<open>C7 as amended, at the reply to the query 1 on a file with groups at 1 and 2.\<close>

theorem rectangle_variants_witness:
  "(1, [(0, drectangle 12 12 37 37, ''ok'')]) \<in> set (face_replies (getFaceGenerator
      [(1, 0, 0.125, 0.125, 0.375, 0.375, ''ok''), (2, 0, 0.125, 0.125, 0.375, 0.375, ''ok'')]
      100 100 True) [1])
   \<and> (0, drectangle 12 12 37 37, ''ok'') \<in> set [(0, drectangle 12 12 37 37, ''ok'')]
   \<and> (\<exists>left_n top_n right_n bottom_n.
         (1, 0, left_n, top_n, right_n, bottom_n, ''ok'')
           \<in> set [(1, 0, 0.125, 0.125, 0.375, 0.375, ''ok''), (2::real, 0::int, 0.125, 0.125, 0.375, 0.375, ''ok'')]
         \<and> drectangle 12 12 37 37
           = drectangle (of_int (py_int (left_n * of_int 100))) (of_int (py_int (top_n * of_int 100)))
               (of_int (py_int (right_n * of_int 100))) (of_int (py_int (bottom_n * of_int 100))))"
proof -
  have reply: "(1, [(0, drectangle 12 12 37 37, ''ok'')]) \<in> set (face_replies (getFaceGenerator
      [(1, 0, 0.125, 0.125, 0.375, 0.375, ''ok''), (2, 0, 0.125, 0.125, 0.375, 0.375, ''ok'')]
      100 100 True) [1])"
    by (simp add: face_eval)
  have entry: "(0, drectangle 12 12 37 37, ''ok'') \<in> set [(0, drectangle 12 12 37 37, ''ok'')]"
    by simp
  from rectangle_variants [OF reply entry] reply entry show ?thesis
    by simp
qed

text \<open>C7 as stated fails: with the flag set, the row with coordinates 0.125 and
  0.375 (exact in binary, like their products with 100) on a 100 x 100 frame is
  returned as the rectangle (12, 12, 37, 37), not as the products (12.5, 12.5, 37.5,
  37.5).\<close>

theorem double_flag_holds_truncated_pixels:
  "face_replies (getFaceGenerator
      [(1, 0, 0.125, 0.125, 0.375, 0.375, ''ok''), (2, 0, 0.125, 0.125, 0.375, 0.375, ''ok'')]
      100 100 True) [1]
     = [(1, [(0, drectangle 12 12 37 37, ''ok'')])]
   \<and> drectangle 12 12 37 37
       \<noteq> drectangle (0.125 * 100) (0.125 * 100) (0.375 * 100) (0.375 * 100)"
  by (simp add: face_eval)

subsection \<open>Reply times\<close>

lemma shape_of_row_time: "shape_of_row fw fh row = Inr (T, entry) \<Longrightarrow> row \<noteq> [] \<and> T = hd row"
  by (auto simp: shape_of_row_def Let_def split: list.splits if_splits)

lemma shape_wait_inv:
  assumes "shape_wait t rows shapes c hand = (reply, pc')"
    and "shapes \<noteq> []" "c \<in> S" "fst hand \<in> S" "hd ` set rows \<subseteq> S"
  shows "fst reply \<le> t \<and> (snd reply = [] \<longrightarrow> fst reply = t)
           \<and> (snd reply \<noteq> [] \<longrightarrow> fst reply \<in> S) \<and> shape_inv S pc'"
  using assms by (auto simp: shape_wait_def split: if_splits)

lemma shape_loop_inv:
  assumes "shape_loop fw fh t rows shapes currentT = Inr (reply, pc')"
    and "currentT = None \<or> (shapes \<noteq> [] \<and> the currentT \<in> S)" "hd ` set rows \<subseteq> S"
  shows "fst reply \<le> t \<and> (snd reply = [] \<longrightarrow> fst reply = t)
           \<and> (snd reply \<noteq> [] \<longrightarrow> fst reply \<in> S) \<and> shape_inv S pc'"
  using assms
proof (induction rows arbitrary: shapes currentT)
  case Nil
  then show ?case by auto
next
  case (Cons row rows)
  from Cons.prems(1) obtain T entry where row: "shape_of_row fw fh row = Inr (T, entry)"
    by (auto split: sum.splits)
  from shape_of_row_time [OF row] Cons.prems(3) have T: "T \<in> S" by auto
  from Cons.prems(3) have rows: "hd ` set rows \<subseteq> S" by auto
  show ?case
  proof (cases "currentT = None \<or> currentT = Some T")
    case True
    with Cons.prems(1) row
    have "shape_loop fw fh t rows (shapes @ [entry]) (Some T) = Inr (reply, pc')"
      by auto
    from Cons.IH [OF this _ rows] T show ?thesis by simp
  next
    case False
    then obtain c where c: "currentT = Some c" "T \<noteq> c" by auto
    with Cons.prems(1) row have "shape_wait t rows shapes c (T, entry) = (reply, pc')"
      by simp
    from shape_wait_inv [OF this, of S] c Cons.prems(2) T rows show ?thesis by simp
  qed
qed

lemma shape_send_inv:
  assumes "shape_send g t = Inr (reply, g')" and "shape_inv S (lm_pc g)"
  shows "fst reply \<le> t \<and> (snd reply = [] \<longrightarrow> fst reply = t)
           \<and> (snd reply \<noteq> [] \<longrightarrow> fst reply \<in> S) \<and> shape_inv S (lm_pc g')"
proof (cases "lm_pc g")
  case (ShapeStart rows)
  with assms(1) have "shape_loop (lm_frame_width g) (lm_frame_height g) t rows [] None
      = Inr (reply, lm_pc g')"
    by (auto simp: shape_send_def split: sum.splits)
  from shape_loop_inv [OF this, of S] assms(2) ShapeStart show ?thesis by simp
next
  case (ShapeWait rows shapes c hand)
  with assms(1) have "shape_wait t rows shapes c hand = (reply, lm_pc g')"
    by (auto simp: shape_send_def split: sum.splits prod.splits)
  from shape_wait_inv [OF this, of S] assms(2) ShapeWait show ?thesis by simp
next
  case (ShapeDelivered rows hand)
  obtain T entry where hand: "hand = (T, entry)" by (cases hand)
  with ShapeDelivered assms(1)
  have "shape_loop (lm_frame_width g) (lm_frame_height g) t rows [entry] (Some T)
      = Inr (reply, lm_pc g')"
    by (auto simp: shape_send_def split: sum.splits)
  from shape_loop_inv [OF this, of S] assms(2) ShapeDelivered hand show ?thesis by simp
next
  case (ShapeEnd shapes c)
  with assms(1) show ?thesis by (auto simp: shape_send_def)
qed

lemma shape_replies_inv:
  "shape_inv S (lm_pc g) \<Longrightarrow>
   list_all2 (\<lambda>t r. fst r \<le> t \<and> (snd r = [] \<longrightarrow> fst r = t) \<and> (snd r \<noteq> [] \<longrightarrow> fst r \<in> S))
     (take (length (fst (shape_replies g ts))) ts) (fst (shape_replies g ts))"
proof (induction ts arbitrary: g)
  case Nil
  show ?case by simp
next
  case (Cons t ts)
  show ?case
  proof (cases "shape_send g t")
    case (Inl err)
    then show ?thesis by simp
  next
    case (Inr a)
    obtain reply g' where a: "a = (reply, g')" by (cases a)
    from shape_send_inv [OF Inr [unfolded a] Cons.prems]
    have ok: "fst reply \<le> t \<and> (snd reply = [] \<longrightarrow> fst reply = t)
           \<and> (snd reply \<noteq> [] \<longrightarrow> fst reply \<in> S)" and inv: "shape_inv S (lm_pc g')"
      by simp_all
    obtain replies err where rest: "shape_replies g' ts = (replies, err)"
      by (cases "shape_replies g' ts")
    from Cons.IH [OF inv] ok Inr a rest show ?thesis
      by simp
  qed
qed

lemma face_replies_times:
  "list_all2 (\<lambda>t r. fst r \<le> t \<and> (snd r = [] \<longrightarrow> fst r = t)
                 \<and> (snd r \<noteq> [] \<longrightarrow> fst r \<in> row_t ` set tracking))
     ts (face_replies (getFaceGenerator tracking fw fh dbl) ts)"
proof -
  have "list_all2 (\<lambda>t r. fst r \<le> t \<and> (r = (t, []) \<or> r \<in> set (butlast (groups_of fw fh dbl tracking))))
     ts (face_replies (getFaceGenerator tracking fw fh dbl) ts)"
    unfolding face_replies_groups by (rule replay_times)
  then show ?thesis
  proof (rule list_all2_mono)
    fix t and r :: face_reply
    assume "fst r \<le> t \<and> (r = (t, []) \<or> r \<in> set (butlast (groups_of fw fh dbl tracking)))"
    moreover have "snd r \<noteq> [] \<and> fst r \<in> row_t ` set tracking"
      if "r \<in> set (butlast (groups_of fw fh dbl tracking))"
      using in_set_butlastD [OF that] groups_of_member [of "fst r" "snd r" fw fh dbl tracking]
        groups_of_nonempty [of r fw fh dbl tracking] by simp
    ultimately show "fst r \<le> t \<and> (snd r = [] \<longrightarrow> fst r = t)
                 \<and> (snd r \<noteq> [] \<longrightarrow> fst r \<in> row_t ` set tracking)"
      by auto
  qed
qed

text \<open>
  C10. For every sequence of queries (non-decreasing or not), every reply of the face
  generator and every reply the landmark generator gives before an exception ends its
  run carries a time that is not after its query: a reply without records carries the
  query time itself, and a reply with records carries a time of a row of the file.
\<close>

theorem reply_time_never_after_query:
  "list_all2 (\<lambda>t r. fst r \<le> t \<and> (snd r = [] \<longrightarrow> fst r = t)
                 \<and> (snd r \<noteq> [] \<longrightarrow> fst r \<in> row_t ` set tracking))
     ts (face_replies (getFaceGenerator tracking fw fh dbl) ts)
   \<and> list_all2 (\<lambda>t r. fst r \<le> t \<and> (snd r = [] \<longrightarrow> fst r = t)
                 \<and> (snd r \<noteq> [] \<longrightarrow> fst r \<in> hd ` set shape))
       (take (length (fst (shape_replies (getLandmarkGenerator shape fw fh) ts))) ts)
       (fst (shape_replies (getLandmarkGenerator shape fw fh) ts))"
proof
  show "list_all2 (\<lambda>t r. fst r \<le> t \<and> (snd r = [] \<longrightarrow> fst r = t)
                 \<and> (snd r \<noteq> [] \<longrightarrow> fst r \<in> row_t ` set tracking))
     ts (face_replies (getFaceGenerator tracking fw fh dbl) ts)"
    by (rule face_replies_times)
next
  have "shape_inv (hd ` set shape) (lm_pc (getLandmarkGenerator shape fw fh))"
    by (simp add: getLandmarkGenerator_def)
  then show "list_all2 (\<lambda>t r. fst r \<le> t \<and> (snd r = [] \<longrightarrow> fst r = t)
                 \<and> (snd r \<noteq> [] \<longrightarrow> fst r \<in> hd ` set shape))
       (take (length (fst (shape_replies (getLandmarkGenerator shape fw fh) ts))) ts)
       (fst (shape_replies (getLandmarkGenerator shape fw fh) ts))"
    by (rule shape_replies_inv)
qed


lemmas shape_eval = getLandmarkGenerator_def shape_send_def shape_of_row_def np_round_def
  py_int_def shape_wait_def n_points_of_def Let_def

text \<open>C10 at a tracking file and a landmark file with groups at 1 and 2, queried at 0.9,
  1.5 and 2: the group of time 1 is returned with time 1 to the query 1.5, the other
  replies carry their query times.\<close>

theorem reply_time_never_after_query_witness:
  "list_all2 (\<lambda>t r. fst r \<le> t \<and> (snd r = [] \<longrightarrow> fst r = t)
                 \<and> (snd r \<noteq> [] \<longrightarrow> fst r \<in> row_t ` set
                       [(1, 0, 0.1, 0.1, 0.3, 0.3, ''ok''), (2, 0, 0.1, 0.1, 0.3, 0.3, ''ok'')]))
     [0.9, 1.5, 2 :: real]
     [(0.9, []), (1, [(0, rectangle 10 10 30 30, ''ok'')]), (2, [])]
   \<and> list_all2 (\<lambda>t r. fst r \<le> t \<and> (snd r = [] \<longrightarrow> fst r = t)
                 \<and> (snd r \<noteq> [] \<longrightarrow> fst r \<in> hd ` set
                       [[1, 0, 0.5, 0.5, 0.25, 0.75], [2, 0, 0.5, 0.5, 0.25, 0.75 :: real]]))
       [0.9, 1.5, 2 :: real]
       [(0.9, []), (1, [(0, [(50, 50), (25, 75)])]), (2, [])]"
  using reply_time_never_after_query [where
      tracking = "[(1, 0, 0.1, 0.1, 0.3, 0.3, ''ok''), (2, 0, 0.1, 0.1, 0.3, 0.3, ''ok'')]"
      and fw = 100 and fh = 100 and dbl = False and ts = "[0.9, 1.5, 2]"
      and shape = "[[1, 0, 0.5, 0.5, 0.25, 0.75], [2, 0, 0.5, 0.5, 0.25, 0.75]]"]
  by (simp add: face_eval shape_eval)

subsection \<open>The order of the rows\<close>

text \<open>
  C4, as amended. The face generator iterates over the rows of the tracking file sorted
  in ascending order of time, whatever their order in the file. The landmark generator
  iterates over the rows of the landmark file in the order of the file: it does not
  sort them.
\<close>

theorem parsers_and_order:
  "(\<exists>rows. pc (getFaceGenerator tracking fw fh dbl) = FaceStart rows
       \<and> sorted (map row_t rows) \<and> mset rows = mset tracking)
   \<and> lm_pc (getLandmarkGenerator shape fw fh) = ShapeStart shape"
  by (simp add: getFaceGenerator_def getLandmarkGenerator_def sort_values_def)

text \<open>C4 as stated fails for the landmark parser: the rows with times 2, 1, 3
  reach the loop in that order, and two queries at 5 get the group of time 2 before the
  group of time 1.\<close>

theorem landmark_rows_unsorted:
  "lm_pc (getLandmarkGenerator [[2, 0, 0.5, 0.5], [1, 0, 0.5, 0.5], [3, 0, 0.5, 0.5]] 100 100)
     = ShapeStart [[2, 0, 0.5, 0.5], [1, 0, 0.5, 0.5], [3, 0, 0.5, 0.5]]
   \<and> \<not> sorted (map hd [[2, 0, 0.5, 0.5], [1, 0, 0.5, 0.5], [3, 0, 0.5, 0.5 :: real]])
   \<and> shape_replies (getLandmarkGenerator
        [[2, 0, 0.5, 0.5], [1, 0, 0.5, 0.5], [3, 0, 0.5, 0.5]] 100 100) [5, 5]
       = ([(2, [(0, [(50, 50)])]), (1, [(0, [(50, 50)])])], None)"
  by (simp add: shape_eval)

subsection \<open>The number of points of a landmark row\<close>

lemma pairwise_iter_nth:
  "pairwise_iter xs = map (\<lambda>k. (xs ! (2 * k), xs ! (2 * k + 1))) [0..<length xs div 2]"
proof (induction xs rule: pairwise_iter.induct)
  case (1 s0 s1 rest)
  have "map (\<lambda>k. ((s0 # s1 # rest) ! (2 * k), (s0 # s1 # rest) ! (2 * k + 1)))
          [0..<Suc (length rest div 2)]
        = (s0, s1) # map (\<lambda>k. (rest ! (2 * k), rest ! (2 * k + 1))) [0..<length rest div 2]"
    by (simp add: upt_conv_Cons map_Suc_upt [symmetric] del: upt_Suc)
  with "1.IH" show ?case by simp
qed simp_all

text \<open>
  C5, as amended. For N \<ge> 1, a landmark row of 2 + 2N fields yields exactly N points,
  the pairs of its fields from the third on, scaled to the frame and rounded; a row of
  2 + 2N + 1 fields is not rejected: its last field is dropped and it yields the same
  N points.
\<close>

theorem landmark_count:
  assumes "0 < N" and "length row = 2 + 2 * N \<or> length row = 2 + 2 * N + 1"
  shows "shape_of_row fw fh row =
           Inr (row ! 0, py_int (row ! 1),
                map (\<lambda>k. (np_round (row ! (2 + 2 * k) * of_int fw),
                           np_round (row ! (3 + 2 * k) * of_int fh))) [0..<N])"
proof -
  from assms obtain T ident coordinates where row: "row = T # ident # coordinates"
    by (cases row; cases "tl row") auto
  with assms have len: "length coordinates div 2 = N" by auto
  with assms(1) have "pairwise_iter coordinates \<noteq> []"
    by (simp add: pairwise_iter_nth)
  then show ?thesis
    using row len by (simp add: shape_of_row_def Let_def pairwise_iter_nth o_def)
qed

text \<open>C5 as amended, at a row of six fields and at the same row with a seventh
  field: two points each.\<close>

theorem landmark_count_witness:
  "(0::nat) < 2 \<and> length [1, 7, 0.5, 0.5, 0.25, 0.75 :: real] = 2 + 2 * 2
   \<and> length [1, 7, 0.5, 0.5, 0.25, 0.75, 0.125 :: real] = 2 + 2 * 2 + 1
   \<and> shape_of_row 100 100 [1, 7, 0.5, 0.5, 0.25, 0.75] = Inr (1, 7, [(50, 50), (25, 75)])
   \<and> shape_of_row 100 100 [1, 7, 0.5, 0.5, 0.25, 0.75, 0.125] = Inr (1, 7, [(50, 50), (25, 75)])"
  using landmark_count [where N = 2 and row = "[1, 7, 0.5, 0.5, 0.25, 0.75]" and fw = 100 and fh = 100]
    landmark_count [where N = 2 and row = "[1, 7, 0.5, 0.5, 0.25, 0.75, 0.125]" and fw = 100 and fh = 100]
  by (simp add: shape_eval upt_conv_Cons del: upt_Suc)

text \<open>C5 as stated fails: a file whose rows have five fields is replayed without
  any error, one point per row, although \<open>n_points\<close> is 3/2.\<close>

theorem odd_width_rows_are_not_rejected:
  "shape_replies (getLandmarkGenerator
      [[1, 0, 0.5, 0.5, 0.25], [2, 0, 0.5, 0.5, 0.25]] 100 100) [1, 2]
     = ([(1, [(0, [(50, 50)])]), (2, [])], None)
   \<and> n_points (getLandmarkGenerator
      [[1, 0, 0.5, 0.5, 0.25], [2, 0, 0.5, 0.5, 0.25]] 100 100) = 3 / 2"
  by (simp add: shape_eval)

subsection \<open>The overlay: colors and nose lines\<close>

lemma length_COLORS: "length COLORS = 26"
  by (simp add: COLORS_def)

lemma face_color_mod: "face_color ident = Inr (COLORS ! nat (ident mod 26))"
  by (simp add: face_color_def py_index_def length_COLORS)

lemma drawn_colors_append: "drawn_colors (xs @ ys) = drawn_colors xs @ drawn_colors ys"
  by (induction xs rule: drawn_colors.induct) simp_all

lemma lines_drawn_append: "lines_drawn (xs @ ys) = lines_drawn xs @ lines_drawn ys"
  by (induction xs rule: lines_drawn.induct) simp_all

lemma draw_face_colors:
  "draw_face i (ident, face, status) landmarks lbls = Inr cmds \<Longrightarrow>
   drawn_colors cmds =
     (if landmarks = None then [COLORS ! nat (ident mod 26)]
      else [COLORS ! nat (ident mod 26), COLORS ! nat (ident mod 26)])"
  by (auto simp: draw_face_def face_color_mod Let_def split: option.splits sum.splits)

lemma draw_faces_colors:
  "draw_faces i faces landmarks lbls = Inr cmds \<Longrightarrow>
   drawn_colors cmds =
     concat (map (\<lambda>(ident, face, status).
                    if landmarks = None then [COLORS ! nat (ident mod 26)]
                    else [COLORS ! nat (ident mod 26), COLORS ! nat (ident mod 26)])
               faces)"
proof (induction faces arbitrary: i cmds)
  case Nil
  then show ?case by simp
next
  case (Cons entry faces)
  obtain ident face status where entry: "entry = (ident, face, status)"
    by (cases entry)
  from Cons.prems obtain c1 c2 where
    c1: "draw_face i entry landmarks lbls = Inr c1" and
    c2: "draw_faces (Suc i) faces landmarks lbls = Inr c2" and cmds: "cmds = c1 @ c2"
    by (auto split: sum.splits)
  from draw_face_colors [OF c1 [unfolded entry]] Cons.IH [OF c2] cmds entry
  show ?case by (simp add: drawn_colors_append)
qed

lemmas overlay_eval = draw_face_def face_color_def py_index_def nose_line_def np_row_def
  py_int_def COLORS_def Let_def nose_of_def

text \<open>
  C8. The palette has 26 entries. For every track identifier, negative ones included,
  the palette lookup of line 344 raises nothing and gives the entry at index
  (identifier mod 26). Whenever the loop of line 343 completes, the colors of the
  rectangles and nose lines it draws are, face by face, that entry for the face's
  identifier: once per face without landmarks, twice (box and nose line) with them.
  The color depends on the identifier alone, so it is the same on every frame.
\<close>

theorem color_by_identifier:
  "length COLORS = 26
   \<and> face_color ident = Inr (COLORS ! nat (ident mod 26))
   \<and> (draw_faces 0 faces landmarks lbls = Inr cmds \<longrightarrow>
        drawn_colors cmds =
          concat (map (\<lambda>(ident, face, status).
                    if landmarks = None then [COLORS ! nat (ident mod 26)]
                    else [COLORS ! nat (ident mod 26), COLORS ! nat (ident mod 26)])
               faces))"
  using length_COLORS face_color_mod draw_faces_colors by blast

text \<open>C8 at the identifiers 27 and -1 and at a frame with the faces 27 and 1, which share
  the palette entry 1.\<close>

theorem color_by_identifier_witness:
  "face_color 27 = Inr (0, 117, 220) \<and> face_color (- 1) = Inr (255, 80, 5)
   \<and> draw_faces 0 [(27, drectangle 10 10 30 30, ''ok''), (1, drectangle 50 50 70 70, ''ok'')]
        None Map.empty
      = Inr [Rectangle (10, 10) (30, 30) (0, 117, 220),
             PutText (IdentifierText 27) (10, 45) (255, 0, 0),
             PutText (LabelText []) (10, 3) (255, 0, 0),
             Rectangle (50, 50) (70, 70) (0, 117, 220),
             PutText (IdentifierText 1) (50, 85) (255, 0, 0),
             PutText (LabelText []) (50, 43) (255, 0, 0)]
   \<and> drawn_colors [Rectangle (10, 10) (30, 30) (0, 117, 220),
             PutText (IdentifierText 27) (10, 45) (255, 0, 0),
             PutText (LabelText []) (10, 3) (255, 0, 0),
             Rectangle (50, 50) (70, 70) (0, 117, 220),
             PutText (IdentifierText 1) (50, 85) (255, 0, 0),
             PutText (LabelText []) (50, 43) (255, 0, 0)]
      = [COLORS ! nat (27 mod 26), COLORS ! nat (1 mod 26)]"
proof -
  have run: "draw_faces 0 [(27, drectangle 10 10 30 30, ''ok''), (1, drectangle 50 50 70 70, ''ok'')]
        None Map.empty
      = Inr [Rectangle (10, 10) (30, 30) (0, 117, 220),
             PutText (IdentifierText 27) (10, 45) (255, 0, 0),
             PutText (LabelText []) (10, 3) (255, 0, 0),
             Rectangle (50, 50) (70, 70) (0, 117, 220),
             PutText (IdentifierText 1) (50, 85) (255, 0, 0),
             PutText (LabelText []) (50, 43) (255, 0, 0)]"
    by (simp add: overlay_eval)
  from color_by_identifier [where ident = 27 and faces = "[(27, drectangle 10 10 30 30, ''ok''), (1, drectangle 50 50 70 70, ''ok'')]"
      and landmarks = None and lbls = Map.empty]
    color_by_identifier [where ident = "- 1" and faces = "[]" and landmarks = None and lbls = Map.empty and cmds = "[]"]
    run
  show ?thesis by (simp add: COLORS_def)
qed


lemma nose_line_ok:
  "i < length landmarks \<Longrightarrow> 33 < length (snd (landmarks ! i)) \<Longrightarrow>
   nose_line landmarks i = Inr (nose_of (snd (landmarks ! i)))"
  by (cases "landmarks ! i"; cases "snd (landmarks ! i) ! 27"; cases "snd (landmarks ! i) ! 33")
     (simp add: nose_line_def py_index_def np_row_def nose_of_def Let_def)

lemma nose_line_out_of_range:
  "length landmarks \<le> i \<Longrightarrow> nose_line landmarks i = Inl (IndexError ''list index out of range'')"
  by (simp add: nose_line_def py_index_def Let_def)

lemma draw_face_lines:
  "i < length landmarks \<Longrightarrow> 33 < length (snd (landmarks ! i)) \<Longrightarrow>
   \<exists>cmds. draw_face i entry (Some landmarks) lbls = Inr cmds \<and>
          lines_drawn cmds = [(fst (nose_of (snd (landmarks ! i))), snd (nose_of (snd (landmarks ! i))),
                               COLORS ! nat (fst entry mod 26))]"
  by (cases entry; cases "nose_of (snd (landmarks ! i))")
     (simp add: draw_face_def face_color_mod nose_line_ok Let_def)

lemma draw_face_out_of_range:
  "length landmarks \<le> i \<Longrightarrow>
   draw_face i entry (Some landmarks) lbls = Inl (IndexError ''list index out of range'')"
  by (cases entry) (simp add: draw_face_def face_color_mod nose_line_out_of_range Let_def)

lemma draw_faces_lines:
  "i + length faces \<le> length landmarks \<Longrightarrow>
   \<forall>j<length faces. 33 < length (snd (landmarks ! (i + j))) \<Longrightarrow>
   \<exists>cmds. draw_faces i faces (Some landmarks) lbls = Inr cmds \<and>
          lines_drawn cmds =
            map (\<lambda>j. (fst (nose_of (snd (landmarks ! (i + j)))),
                       snd (nose_of (snd (landmarks ! (i + j)))),
                       COLORS ! nat (fst (faces ! j) mod 26))) [0..<length faces]"
proof (induction faces arbitrary: i)
  case Nil
  show ?case by simp
next
  case (Cons entry faces)
  from Cons.prems have i: "i < length landmarks" "33 < length (snd (landmarks ! i))"
    by auto
  from draw_face_lines [OF i, of entry lbls] obtain c1 where
    c1: "draw_face i entry (Some landmarks) lbls = Inr c1"
      "lines_drawn c1 = [(fst (nose_of (snd (landmarks ! i))), snd (nose_of (snd (landmarks ! i))),
                               COLORS ! nat (fst entry mod 26))]"
    by blast
  have "Suc i + length faces \<le> length landmarks"
    "\<forall>j<length faces. 33 < length (snd (landmarks ! (Suc i + j)))"
    using Cons.prems by auto
  from Cons.IH [OF this] obtain c2 where
    c2: "draw_faces (Suc i) faces (Some landmarks) lbls = Inr c2"
      "lines_drawn c2 =
            map (\<lambda>j. (fst (nose_of (snd (landmarks ! (Suc i + j)))),
                       snd (nose_of (snd (landmarks ! (Suc i + j)))),
                       COLORS ! nat (fst (faces ! j) mod 26))) [0..<length faces]"
    by blast
  have "map (\<lambda>j. (fst (nose_of (snd (landmarks ! (i + j)))),
                       snd (nose_of (snd (landmarks ! (i + j)))),
                       COLORS ! nat (fst ((entry # faces) ! j) mod 26))) [0..<Suc (length faces)]
      = lines_drawn c1 @ lines_drawn c2"
    unfolding c1 c2 by (simp add: upt_conv_Cons map_Suc_upt [symmetric] del: upt_Suc)
  with c1(1) c2(1) show ?case
    by (simp add: lines_drawn_append)
qed

lemma draw_faces_out_of_range:
  "length landmarks < i + length faces \<Longrightarrow> i \<le> length landmarks \<Longrightarrow>
   \<forall>lm\<in>set landmarks. 33 < length (snd lm) \<Longrightarrow>
   draw_faces i faces (Some landmarks) lbls = Inl (IndexError ''list index out of range'')"
proof (induction faces arbitrary: i)
  case Nil
  then show ?case by simp
next
  case (Cons entry faces)
  show ?case
  proof (cases "i < length landmarks")
    case True
    with Cons.prems(3) have "33 < length (snd (landmarks ! i))" by simp
    from draw_face_lines [OF True this, of entry lbls] obtain c1 where
      "draw_face i entry (Some landmarks) lbls = Inr c1" by blast
    moreover from Cons.prems True
    have "draw_faces (Suc i) faces (Some landmarks) lbls = Inl (IndexError ''list index out of range'')"
      by (intro Cons.IH) auto
    ultimately show ?thesis by simp
  next
    case False
    then show ?thesis by (simp add: draw_face_out_of_range)
  qed
qed

lemma nose_line_ignores_identifier:
  "nose_line (map (\<lambda>(ident, landmark). (f ident, landmark)) landmarks) i = nose_line landmarks i"
  by (cases "i < length landmarks")
     (auto simp: nose_line_def py_index_def Let_def split: prod.splits)

lemma draw_face_ignores_identifier:
  "draw_face i entry (Some (map (\<lambda>(ident, landmark). (f ident, landmark)) landmarks)) lbls
     = draw_face i entry (Some landmarks) lbls"
  by (cases entry) (simp add: draw_face_def nose_line_ignores_identifier Let_def cong: sum.case_cong)

lemma draw_faces_ignores_identifier:
  "draw_faces i faces (Some (map (\<lambda>(ident, landmark). (f ident, landmark)) landmarks)) lbls
     = draw_faces i faces (Some landmarks) lbls"
  by (induction faces arbitrary: i) (simp_all add: draw_face_ignores_identifier cong: sum.case_cong)

text \<open>
  C9. With a landmark file, the loop of line 343 takes the nose line of the face at
  position j from the landmark set at position j of the landmark reply. When the
  landmark reply has at least as many entries as the face reply, and each set used has
  more than 33 points, the loop completes and the lines drawn are, in order, the nose
  lines of the landmark sets at the same positions, in the colors of the faces. The
  identifiers of the landmark sets play no part: replacing them by any others leaves the
  result unchanged. When the landmark reply is shorter than the face reply, the lookup
  at the first position beyond it raises \<open>IndexError\<close>.
\<close>

theorem nose_line_by_position:
  "(length faces \<le> length landmarks \<and> (\<forall>j<length faces. 33 < length (snd (landmarks ! j))) \<longrightarrow>
      (\<exists>cmds. draw_faces 0 faces (Some landmarks) lbls = Inr cmds \<and>
          lines_drawn cmds =
            map (\<lambda>j. (fst (nose_of (snd (landmarks ! j))), snd (nose_of (snd (landmarks ! j))),
                       COLORS ! nat (fst (faces ! j) mod 26))) [0..<length faces]))
   \<and> draw_faces 0 faces (Some (map (\<lambda>(ident, landmark). (f ident, landmark)) landmarks)) lbls
       = draw_faces 0 faces (Some landmarks) lbls
   \<and> (length landmarks < length faces \<and> (\<forall>lm\<in>set landmarks. 33 < length (snd lm)) \<longrightarrow>
        draw_faces 0 faces (Some landmarks) lbls = Inl (IndexError ''list index out of range''))"
  using draw_faces_lines [of 0 faces landmarks lbls]
    draw_faces_ignores_identifier [of 0 faces f landmarks lbls]
    draw_faces_out_of_range [of landmarks 0 faces lbls]
  by simp


text \<open>C9 at one face with identifier 0 and one landmark set with identifier 7, and at two
  faces with that one landmark set.\<close>

theorem nose_line_by_position_witness:
  "length [(0 :: int, drectangle 10 10 30 30, ''ok'')] \<le> length [(7 :: int, replicate 34 (50 :: real, 60 :: real))]
   \<and> 33 < length (snd ([(7 :: int, replicate 34 (50 :: real, 60 :: real))] ! 0))
   \<and> draw_faces 0 [(0, drectangle 10 10 30 30, ''ok'')] (Some [(7, replicate 34 (50, 60))]) Map.empty
       = Inr [Rectangle (10, 10) (30, 30) (240, 163, 255),
              PutText (IdentifierText 0) (10, 45) (255, 0, 0),
              PutText (LabelText []) (10, 3) (255, 0, 0),
              Line (50, 60) (50, 60) (240, 163, 255)]
   \<and> length [(7 :: int, replicate 34 (50 :: real, 60 :: real))]
       < length [(0 :: int, drectangle 10 10 30 30, ''ok''), (1, drectangle 50 50 70 70, ''ok'')]
   \<and> draw_faces 0 [(0, drectangle 10 10 30 30, ''ok''), (1, drectangle 50 50 70 70, ''ok'')]
         (Some [(7, replicate 34 (50, 60))]) Map.empty
       = Inl (IndexError ''list index out of range'')"
  using nose_line_by_position [where faces = "[(0, drectangle 10 10 30 30, ''ok'')]"
      and landmarks = "[(7, replicate 34 (50, 60))]" and lbls = Map.empty and f = id]
    nose_line_by_position [where
      faces = "[(0, drectangle 10 10 30 30, ''ok''), (1, drectangle 50 50 70 70, ''ok'')]"
      and landmarks = "[(7, replicate 34 (50, 60))]" and lbls = Map.empty and f = id]
  by (simp add: overlay_eval)

text \<open>A run of \<open>overlay\<close> itself: the tracking file has two faces at time 1, the landmark
  file one landmark set at time 1, and rendering the frame of time 1 raises.\<close>

lemma overlay_raises_when_landmark_reply_is_shorter:
  "overlay (get_fl [(1, 0, 0.1, 0.1, 0.3, 0.3, ''ok''), (1, 1, 0.5, 0.5, 0.7, 0.7, ''ok''),
                    (2, 0, 0.1, 0.1, 0.3, 0.3, ''ok'')] 100 100
              (Some [1 # 0 # replicate 68 0.5, 2 # 0 # replicate 68 0.5]) 0 None) 100 1
     = Inl (IndexError ''list index out of range'')"
  by (simp add: overlay_def get_fl_def face_eval shape_eval overlay_eval eval_nat_numeral)


subsection \<open>Empty input\<close>

lemma face_replies_end:
  "pc g = FaceEnd faces currentT \<Longrightarrow> face_replies g ts = map (\<lambda>t. (t, [])) ts"
  by (induction ts arbitrary: g) (simp_all add: face_send_def)

text \<open>
  C6. For a table with no rows, building and priming the face generator raises nothing
  (the model has no error branch on this path) and every query of any sequence is
  answered with the query time and no records.
\<close>

theorem empty_input_all_replies_empty:
  "face_replies (getFaceGenerator [] fw fh dbl) ts = map (\<lambda>t. (t, [])) ts"
proof (cases ts)
  case Nil
  then show ?thesis by simp
next
  case (Cons t ts')
  have "face_send (getFaceGenerator [] fw fh dbl) t =
          ((t, []), (getFaceGenerator [] fw fh dbl)\<lparr>pc := FaceEnd [] None\<rparr>)"
    by (simp add: face_send_def getFaceGenerator_def sort_values_def)
  then show ?thesis
    using Cons face_replies_end [of "(getFaceGenerator [] fw fh dbl)\<lparr>pc := FaceEnd [] None\<rparr>" "[]" None ts']
    by simp
qed

end
